theory Spec2Isabelle
  imports Main "HOL-Library.AList" "HOL-Library.Sublist"
begin

section \<open>Contact book: a shallow embedding of contact_book.py\<close>

text \<open>
  The program keeps its contacts in \<^verbatim>\<open>contacts.csv\<close>, exports them to and imports
  them from \<^verbatim>\<open>contacts.json\<close>, and appends to \<^verbatim>\<open>error_log.txt\<close>. Every operation
  is modelled as a function on a record of these three files and of what was printed.

  Level of the model.
  \<^item> A text is a \<open>string\<close>; a \<open>char\<close> stands for a code point below 256.
  \<^item> The CSV file is the list of rows that the \<^verbatim>\<open>csv\<close> module writes to it, each
    row a list of fields; quoting and the ends of rows are below the model. Reading is
    not the inverse of writing: \<^verbatim>\<open>read_contacts\<close> opens the file without
    \<^verbatim>\<open>newline=''\<close>, so a carriage return inside a field arrives as a line feed, and
    the reader of the \<^verbatim>\<open>csv\<close> module refuses a field of more than 131072 characters.
  \<^item> The JSON file is the value that \<^verbatim>\<open>json.load\<close> parses from it, or the message of
    the parse error.
  \<^item> A log line is its level and its message; the time stamp that \<^verbatim>\<open>write_log\<close> puts
    in front depends on the clock and is left out.
  \<^item> Opening, reading and writing a file succeed; the lines typed at the prompts are
    arguments of the operations.
  \<^item> An exception that the program does not catch ends it: an operation returns the
    exception, if any, together with the files as they are at that moment.
\<close>

subsection \<open>Text primitives of Python\<close>

definition isspace :: "char \<Rightarrow> bool" where
  \<comment> \<open>\<^verbatim>\<open>str.isspace\<close> on one character: TAB to CR, FS to US, space, NEL, NBSP\<close>
  "isspace c = ((of_char c :: nat) \<in> set [9, 10, 11, 12, 13, 28, 29, 30, 31, 32, 133, 160])"

definition strip :: "string \<Rightarrow> string" where
  \<comment> \<open>\<^verbatim>\<open>s.strip()\<close>\<close>
  "strip s = rev (dropWhile isspace (rev (dropWhile isspace s)))"

definition lower_char :: "char \<Rightarrow> char" where
  "lower_char c =
     (let n = (of_char c :: nat)
      in if (65 \<le> n \<and> n \<le> 90) \<or> (192 \<le> n \<and> n \<le> 222 \<and> n \<noteq> 215)
         then char_of (n + 32) else c)"

definition lower :: "string \<Rightarrow> string" where
  \<comment> \<open>\<^verbatim>\<open>s.lower()\<close>\<close>
  "lower s = map lower_char s"


definition digit_char :: "nat \<Rightarrow> char" where
  "digit_char d = char_of (48 + d)"

function str_nat :: "nat \<Rightarrow> string" where
  "str_nat n = (if n < 10 then [digit_char n] else str_nat (n div 10) @ [digit_char (n mod 10)])"
  by pat_completeness auto
termination
  by (relation "measure id") auto

declare str_nat.simps [simp del]

definition str_int :: "int \<Rightarrow> string" where
  "str_int i = (if i < 0 then CHR ''-'' # str_nat (nat (- i)) else str_nat (nat i))"

definition hex_digit :: "nat \<Rightarrow> char" where
  "hex_digit d = (if d < 10 then char_of (48 + d) else char_of (87 + d))"

fun join :: "string \<Rightarrow> string list \<Rightarrow> string" where
  \<comment> \<open>\<^verbatim>\<open>sep.join(xs)\<close>\<close>
  "join sep [] = []"
| "join sep [x] = x"
| "join sep (x # y # ys) = x @ sep @ join sep (y # ys)"

definition repr_char :: "char \<Rightarrow> char \<Rightarrow> string" where
  \<comment> \<open>one character inside \<^verbatim>\<open>repr(s)\<close>, for the chosen quote\<close>
  "repr_char q c =
     (let n = (of_char c :: nat)
      in if c = q \<or> c = CHR 0x5C then [CHR 0x5C, c]
         else if n = 9 then [CHR 0x5C, CHR ''t'']
         else if n = 10 then [CHR 0x5C, CHR ''n'']
         else if n = 13 then [CHR 0x5C, CHR ''r'']
         else if n < 32 \<or> n = 127 \<or> (128 \<le> n \<and> n \<le> 160) \<or> n = 173
         then [CHR 0x5C, CHR ''x'', hex_digit (n div 16), hex_digit (n mod 16)]
         else [c])"

definition repr_str :: "string \<Rightarrow> string" where
  \<comment> \<open>\<^verbatim>\<open>repr(s)\<close> of a string: double quotes only when it holds a single and no double quote\<close>
  "repr_str s =
     (let q = (if CHR 0x27 \<in> set s \<and> CHR 0x22 \<notin> set s then CHR 0x22 else CHR 0x27)
      in [q] @ concat (map (repr_char q) s) @ [q])"

subsection \<open>Values, exceptions and the files\<close>

datatype json =
    JNull
  | JBool bool
  | JInt int
  | JFloat string  \<comment> \<open>a float, by the text Python prints for it\<close>
  | JStr string
  | JArr "json list"
  | JObj "(string \<times> json) list"

fun py_repr :: "json \<Rightarrow> string" where
  "py_repr JNull = ''None''"
| "py_repr (JBool b) = (if b then ''True'' else ''False'')"
| "py_repr (JInt i) = str_int i"
| "py_repr (JFloat t) = t"
| "py_repr (JStr s) = repr_str s"
| "py_repr (JArr xs) = ''['' @ join '', '' (map py_repr xs) @ '']''"
| "py_repr (JObj kvs) =
     ''{'' @ join '', '' (map (\<lambda>(k, v). repr_str k @ '': '' @ py_repr v) kvs) @ ''}''"

definition py_str :: "json \<Rightarrow> string" where
  \<comment> \<open>\<^verbatim>\<open>str(v)\<close>: a string is itself, everything else is its repr\<close>
  "py_str v = (case v of JStr s \<Rightarrow> s | _ \<Rightarrow> py_repr v)"

definition type_name :: "json \<Rightarrow> string" where
  "type_name v =
     (case v of JNull \<Rightarrow> ''NoneType'' | JBool _ \<Rightarrow> ''bool'' | JInt _ \<Rightarrow> ''int''
      | JFloat _ \<Rightarrow> ''float'' | JStr _ \<Rightarrow> ''str'' | JArr _ \<Rightarrow> ''list'' | JObj _ \<Rightarrow> ''dict'')"

datatype exc =
    KeyError string
  | AttributeError string
  | ValueError string
  | TypeError string
  | CsvError string  \<comment> \<open>\<^verbatim>\<open>csv.Error\<close>\<close>

fun exc_str :: "exc \<Rightarrow> string" where
  \<comment> \<open>\<^verbatim>\<open>str(e)\<close>; a KeyError shows the repr of its key\<close>
  "exc_str (KeyError k) = repr_str k"
| "exc_str (AttributeError m) = m"
| "exc_str (ValueError m) = m"
| "exc_str (TypeError m) = m"
| "exc_str (CsvError m) = m"

type_synonym row = "string list"

text \<open>
  A dict made by \<^verbatim>\<open>csv.DictReader\<close>: under each column name a field or \<^verbatim>\<open>None\<close>, in the
  order of insertion, and under the key \<^verbatim>\<open>None\<close> the surplus fields of a long row, if any.
\<close>

type_synonym contact = "(string \<times> string option) list \<times> string list option"

datatype json_text =
    Malformed string  \<comment> \<open>\<^verbatim>\<open>json.load\<close> raises a parse error with this message\<close>
  | Document json

record world =
  csv_file :: "row list option"
  json_file :: "json_text option"
  log_file :: "(string \<times> string) list"
  printed :: "string list"

definition FIELDNAMES :: "string list" where
  "FIELDNAMES = [''Name'', ''Phone'', ''Email'']"

definition print :: "string \<Rightarrow> world \<Rightarrow> world" where
  "print s w = w\<lparr>printed := printed w @ [s]\<rparr>"

definition write_log :: "string \<Rightarrow> string \<Rightarrow> world \<Rightarrow> world" where
  "write_log level msg w = w\<lparr>log_file := log_file w @ [(level, msg)]\<rparr>"

subsection \<open>The storage accessor\<close>

definition ensure_csv_exists :: "world \<Rightarrow> world" where
  "ensure_csv_exists w =
     (case csv_file w of None \<Rightarrow> w\<lparr>csv_file := Some [FIELDNAMES]\<rparr> | Some _ \<Rightarrow> w)"

definition row_to_dict :: "string list \<Rightarrow> row \<Rightarrow> contact" where
  \<comment> \<open>the body of \<^verbatim>\<open>DictReader.__next__\<close>: zip, then the surplus or the missing fields\<close>
  "row_to_dict fieldnames r =
     (let d = fold (\<lambda>(k, v). AList.update k (Some v)) (zip fieldnames r) [];
          lf = length fieldnames; lr = length r
      in if lf < lr then (d, Some (drop lf r))
         else if lf > lr then (fold (\<lambda>k. AList.update k None) (drop lr fieldnames) d, None)
         else (d, None))"

definition DictReader :: "row list \<Rightarrow> contact list" where
  \<comment> \<open>the first row gives the field names; empty rows are skipped\<close>
  "DictReader rows =
     (case rows of [] \<Rightarrow> []
      | fieldnames # rest \<Rightarrow> map (row_to_dict fieldnames) (filter (\<lambda>r. r \<noteq> []) rest))"

fun universal_newlines :: "string \<Rightarrow> string" where
  \<comment> \<open>a file opened for reading without \<^verbatim>\<open>newline=''\<close> hands over CR LF and CR as LF\<close>
  "universal_newlines [] = []"
| "universal_newlines [c] = (if c = CHR 0x0D then [CHR 0x0A] else [c])"
| "universal_newlines (c # d # cs) =
     (if c = CHR 0x0D
      then (if d = CHR 0x0A then CHR 0x0A # universal_newlines cs
            else CHR 0x0A # universal_newlines (d # cs))
      else c # universal_newlines (d # cs))"

definition field_size_limit :: nat where
  \<comment> \<open>\<^verbatim>\<open>csv.field_size_limit()\<close>, which the program leaves at its default\<close>
  "field_size_limit = 131072"

definition csv_reader :: "row list \<Rightarrow> exc + row list" where
  \<comment> \<open>what \<^verbatim>\<open>csv.reader\<close> yields on the file as \<^verbatim>\<open>read_contacts\<close> opens it; the first
      field over the limit raises, and every such error is the same\<close>
  "csv_reader rows =
     (let rs = map (map universal_newlines) rows
      in if list_ex (list_ex (\<lambda>f. field_size_limit < length f)) rs
         then Inl (CsvError ''field larger than field limit (131072)'')
         else Inr rs)"

definition read_contacts :: "world \<Rightarrow> (exc + contact list) \<times> world" where
  "read_contacts w =
     (let w1 = ensure_csv_exists w
      in (case csv_file w1 of
            None \<Rightarrow> Inr []
          | Some rows \<Rightarrow>
              (case csv_reader rows of Inl e \<Rightarrow> Inl e | Inr rs \<Rightarrow> Inr (DictReader rs)),
          w1))"

definition dict_keys :: "contact \<Rightarrow> string option list" where
  "dict_keys d = map (Some \<circ> fst) (fst d) @ (case snd d of None \<Rightarrow> [] | Some _ \<Rightarrow> [None])"

definition key_repr :: "string option \<Rightarrow> string" where
  "key_repr k = (case k of None \<Rightarrow> ''None'' | Some s \<Rightarrow> repr_str s)"

definition field_text :: "contact \<Rightarrow> string \<Rightarrow> string" where
  \<comment> \<open>what the writer puts down for \<^verbatim>\<open>rowdict.get(key, '')\<close>: \<^verbatim>\<open>None\<close> is the empty field\<close>
  "field_text d key =
     (case map_of (fst d) key of None \<Rightarrow> [] | Some None \<Rightarrow> [] | Some (Some s) \<Rightarrow> s)"

definition dict_to_list :: "contact \<Rightarrow> exc + row" where
  \<comment> \<open>\<^verbatim>\<open>DictWriter._dict_to_list\<close> with \<^verbatim>\<open>extrasaction='raise'\<close> and \<^verbatim>\<open>restval=''\<close>\<close>
  "dict_to_list d =
     (let wrong_fields = filter (\<lambda>k. k \<notin> set (map Some FIELDNAMES)) (dict_keys d)
      in if wrong_fields \<noteq> []
         then Inl (ValueError (''dict contains fields not in fieldnames: ''
                     @ join '', '' (map key_repr wrong_fields)))
         else Inr (map (field_text d) FIELDNAMES))"

fun writerows :: "contact list \<Rightarrow> row list \<Rightarrow> exc option \<times> row list" where
  \<comment> \<open>rows go to the file one by one; a dict that is refused stops the writing there\<close>
  "writerows [] written = (None, written)"
| "writerows (d # ds) written =
     (case dict_to_list d of
        Inl e \<Rightarrow> (Some e, written)
      | Inr r \<Rightarrow> writerows ds (written @ [r]))"

definition write_contacts :: "contact list \<Rightarrow> world \<Rightarrow> exc option \<times> world" where
  "write_contacts contacts w =
     (case writerows contacts [FIELDNAMES] of
        (e, rows) \<Rightarrow> (e, w\<lparr>csv_file := Some rows\<rparr>))"

subsection \<open>The record operations\<close>

definition new_contact :: "string \<Rightarrow> string \<Rightarrow> string \<Rightarrow> contact" where
  \<comment> \<open>the dict literal \<^verbatim>\<open>{"Name": name, "Phone": phone, "Email": email}\<close>\<close>
  "new_contact name phone email =
     ([(''Name'', Some name), (''Phone'', Some phone), (''Email'', Some email)], None)"

definition add_contact :: "string \<Rightarrow> string \<Rightarrow> string \<Rightarrow> world \<Rightarrow> exc option \<times> world" where
  "add_contact name_in phone_in email_in w =
     (let name = strip name_in; phone = strip phone_in; email = strip email_in
      in if name = [] \<or> phone = [] \<or> email = []
         then (None, print ''All fields are required.'' w)
         else (case read_contacts w of
                 (Inl e, w1) \<Rightarrow> (Some e, w1)
               | (Inr contacts, w1) \<Rightarrow>
                   (case write_contacts (contacts @ [new_contact name phone email]) w1 of
                      (Some e, w2) \<Rightarrow> (Some e, w2)
                    | (None, w2) \<Rightarrow>
                        (None, print ''Contact added.''
                                 (write_log ''INFO'' (''Added contact: '' @ name) w2)))))"

definition subscript :: "contact \<Rightarrow> string \<Rightarrow> exc + string option" where
  \<comment> \<open>\<^verbatim>\<open>c[key]\<close>\<close>
  "subscript c key = (case map_of (fst c) key of None \<Rightarrow> Inl (KeyError key) | Some v \<Rightarrow> Inr v)"

definition no_attribute :: "string \<Rightarrow> string \<Rightarrow> exc" where
  \<comment> \<open>the AttributeError of a method call on a value that has no such method\<close>
  "no_attribute ty attr =
     AttributeError ([CHR 0x27] @ ty @ [CHR 0x27] @ '' object has no attribute ''
                     @ [CHR 0x27] @ attr @ [CHR 0x27])"

definition name_lower :: "contact \<Rightarrow> exc + string" where
  \<comment> \<open>\<^verbatim>\<open>c["Name"].lower()\<close>\<close>
  "name_lower c =
     (case subscript c ''Name'' of
        Inl e \<Rightarrow> Inl e
      | Inr None \<Rightarrow> Inl (no_attribute ''NoneType'' ''lower'')
      | Inr (Some s) \<Rightarrow> Inr (lower s))"

fun comprehension :: "(string \<Rightarrow> bool) \<Rightarrow> contact list \<Rightarrow> exc + contact list" where
  \<comment> \<open>\<^verbatim>\<open>[c for c in contacts if keep(c["Name"].lower())]\<close>, left to right\<close>
  "comprehension keep [] = Inr []"
| "comprehension keep (c # cs) =
     (case name_lower c of
        Inl e \<Rightarrow> Inl e
      | Inr n \<Rightarrow>
          (case comprehension keep cs of
             Inl e \<Rightarrow> Inl e
           | Inr found \<Rightarrow> Inr (if keep n then c # found else found)))"

definition format_value :: "string option \<Rightarrow> string" where
  \<comment> \<open>a field inside an f-string\<close>
  "format_value v = (case v of None \<Rightarrow> ''None'' | Some s \<Rightarrow> s)"



definition column :: "contact \<Rightarrow> string \<Rightarrow> nat \<Rightarrow> exc + string" where
  \<comment> \<open>\<^verbatim>\<open>{c[key][:width - 1]:width}\<close> inside an f-string: cut, then filled up with spaces;
      \<^verbatim>\<open>None\<close> cannot be cut\<close>
  "column c key width =
     (case subscript c key of
        Inl e \<Rightarrow> Inl e
      | Inr None \<Rightarrow> Inl (TypeError ([CHR 0x27] @ ''NoneType'' @ [CHR 0x27]
                                        @ '' object is not subscriptable''))
      | Inr (Some s) \<Rightarrow>
          Inr (take (width - 1) s @ replicate (width - length (take (width - 1) s)) CHR '' ''))"

definition list_line :: "contact \<Rightarrow> exc + string" where
  "list_line c =
     (case column c ''Name'' 30 of Inl e \<Rightarrow> Inl e | Inr n \<Rightarrow>
      (case column c ''Phone'' 20 of Inl e \<Rightarrow> Inl e | Inr p \<Rightarrow>
       (case column c ''Email'' 30 of Inl e \<Rightarrow> Inl e | Inr m \<Rightarrow>
          Inr (n @ '' '' @ p @ '' '' @ m))))"

fun list_lines :: "contact list \<Rightarrow> world \<Rightarrow> exc option \<times> world" where
  "list_lines [] w = (None, w)"
| "list_lines (c # cs) w =
     (case list_line c of
        Inl e \<Rightarrow> (Some e, w)
      | Inr s \<Rightarrow> list_lines cs (print s w))"

definition list_contacts :: "world \<Rightarrow> exc option \<times> world" where
  "list_contacts w =
     (case read_contacts w of
        (Inl e, w1) \<Rightarrow> (Some e, w1)
      | (Inr contacts, w1) \<Rightarrow>
          if contacts = [] then (None, print ''No contacts found.'' w1)
          else (let w2 = print (replicate 80 CHR ''-'')
                           (print ([CHR 0x0A] @ ''Name'' @ replicate 26 CHR '' '' @ '' ''
                                   @ ''Phone'' @ replicate 15 CHR '' '' @ '' ''
                                   @ ''Email'' @ replicate 25 CHR '' '') w1)
                in case list_lines contacts w2 of
                     (Some e, w3) \<Rightarrow> (Some e, w3)
                   | (None, w3) \<Rightarrow>
                       (None, print ([CHR 0x0A] @ ''Total: '' @ str_nat (length contacts)) w3)))"


definition setitem :: "contact \<Rightarrow> string \<Rightarrow> string \<Rightarrow> contact" where
  \<comment> \<open>\<^verbatim>\<open>c[key] = value\<close>\<close>
  "setitem c key v = (AList.update key (Some v) (fst c), snd c)"

fun update_loop ::
  "string \<Rightarrow> string \<Rightarrow> string \<Rightarrow> contact list \<Rightarrow> contact list \<Rightarrow> world \<Rightarrow> exc option \<times> world"
where
  \<comment> \<open>the \<^verbatim>\<open>for\<close> loop of \<^verbatim>\<open>update_contact\<close>; \<open>passed\<close> holds the contacts already passed\<close>
  "update_loop name phone_in email_in passed [] w = (None, print ''Contact not found.'' w)"
| "update_loop name phone_in email_in passed (c # cs) w =
     (case name_lower c of
        Inl e \<Rightarrow> (Some e, w)
      | Inr n \<Rightarrow>
          if n = lower name then
            (case subscript c ''Phone'' of
               Inl e \<Rightarrow> (Some e, w)
             | Inr p \<Rightarrow>
                 (let w1 = print (''Current phone: '' @ format_value p) w;
                      new_phone = strip phone_in;
                      c1 = (if new_phone \<noteq> [] then setitem c ''Phone'' new_phone else c);
                      new_email = strip email_in;
                      c2 = (if new_email \<noteq> [] then setitem c1 ''Email'' new_email else c1)
                  in case write_contacts (passed @ c2 # cs) w1 of
                       (Some e, w2) \<Rightarrow> (Some e, w2)
                     | (None, w2) \<Rightarrow>
                         (None, print ''Contact updated.''
                                  (write_log ''INFO'' (''Updated contact: '' @ name) w2))))
          else update_loop name phone_in email_in (passed @ [c]) cs w)"

definition update_contact :: "string \<Rightarrow> string \<Rightarrow> string \<Rightarrow> world \<Rightarrow> exc option \<times> world" where
  \<comment> \<open>the new phone and the new email are asked for only once a contact has matched\<close>
  "update_contact name_in phone_in email_in w =
     (let name = strip name_in
      in case read_contacts w of
           (Inl e, w1) \<Rightarrow> (Some e, w1)
         | (Inr contacts, w1) \<Rightarrow> update_loop name phone_in email_in [] contacts w1)"

definition delete_contact :: "string \<Rightarrow> world \<Rightarrow> exc option \<times> world" where
  "delete_contact name_in w =
     (let name = strip name_in
      in case read_contacts w of
           (Inl e, w1) \<Rightarrow> (Some e, w1)
         | (Inr contacts, w1) \<Rightarrow>
             (case comprehension (\<lambda>n. n \<noteq> lower name) contacts of
                Inl e \<Rightarrow> (Some e, w1)
              | Inr new_contacts \<Rightarrow>
                  if length new_contacts = length contacts
                  then (None, print ''Contact not found.'' w1)
                  else (case write_contacts new_contacts w1 of
                          (Some e, w2) \<Rightarrow> (Some e, w2)
                        | (None, w2) \<Rightarrow>
                            (None, print ''Contact deleted.''
                                     (write_log ''INFO'' (''Deleted contact: '' @ name) w2)))))"

subsection \<open>Export and import\<close>

definition json_dump :: "contact list \<Rightarrow> json" where
  \<comment> \<open>what \<^verbatim>\<open>json.dump\<close> writes: \<^verbatim>\<open>None\<close> as null, the key \<^verbatim>\<open>None\<close> as "null"\<close>
  "json_dump contacts =
     JArr (map (\<lambda>c. JObj (map (\<lambda>(k, v). (k, case v of None \<Rightarrow> JNull | Some s \<Rightarrow> JStr s)) (fst c)
                           @ (case snd c of None \<Rightarrow> []
                              | Some xs \<Rightarrow> [(''null'', JArr (map JStr xs))])))
               contacts)"

definition export_json :: "world \<Rightarrow> exc option \<times> world" where
  "export_json w =
     (case read_contacts w of
        (Inl e, w1) \<Rightarrow> (Some e, w1)
      | (Inr contacts, w1) \<Rightarrow>
          if contacts = [] then (None, print ''No contacts to export.'' w1)
          else (let w2 = w1\<lparr>json_file := Some (Document (json_dump contacts))\<rparr>;
                    n = str_nat (length contacts)
                in (None, print (''Exported '' @ n @ '' contacts to contacts.json.'')
                            (write_log ''INFO'' (''Exported '' @ n @ '' contacts to JSON.'') w2))))"

definition get :: "json \<Rightarrow> string \<Rightarrow> json \<Rightarrow> exc + json" where
  \<comment> \<open>\<^verbatim>\<open>c.get(key, default)\<close>; only a dict has it, and of a repeated key the parser
      keeps the last value\<close>
  "get c key dflt =
     (case c of
        JObj kvs \<Rightarrow> Inr (case map_of (rev kvs) key of None \<Rightarrow> dflt | Some v \<Rightarrow> v)
      | _ \<Rightarrow> Inl (no_attribute (type_name c) ''get''))"

definition clean :: "json \<Rightarrow> exc + contact" where
  \<comment> \<open>one round of the loop in \<^verbatim>\<open>import_json\<close>\<close>
  "clean c =
     (case get c ''Name'' (JStr []) of Inl e \<Rightarrow> Inl e | Inr n \<Rightarrow>
      (case get c ''Phone'' (JStr []) of Inl e \<Rightarrow> Inl e | Inr p \<Rightarrow>
       (case get c ''Email'' (JStr []) of Inl e \<Rightarrow> Inl e | Inr m \<Rightarrow>
          Inr (new_contact (strip (py_str n)) (strip (py_str p)) (strip (py_str m))))))"

fun clean_all :: "json list \<Rightarrow> exc + contact list" where
  "clean_all [] = Inr []"
| "clean_all (c # cs) =
     (case clean c of
        Inl e \<Rightarrow> Inl e
      | Inr d \<Rightarrow> (case clean_all cs of Inl e \<Rightarrow> Inl e | Inr ds \<Rightarrow> Inr (d # ds)))"

definition import_failed :: "exc \<Rightarrow> world \<Rightarrow> world" where
  \<comment> \<open>the \<^verbatim>\<open>except Exception as e\<close> branch\<close>
  "import_failed e w =
     write_log ''ERROR'' (''Import JSON failed: '' @ exc_str e)
       (print (''Failed to import JSON: '' @ exc_str e) w)"

definition import_json :: "world \<Rightarrow> exc option \<times> world" where
  "import_json w =
     (case json_file w of
        None \<Rightarrow> (None, print ''JSON file not found.'' w)
      | Some (Malformed msg) \<Rightarrow> (None, import_failed (ValueError msg) w)
      | Some (Document contacts) \<Rightarrow>
          (case contacts of
             JArr elems \<Rightarrow>
               (case clean_all elems of
                  Inl e \<Rightarrow> (None, import_failed e w)
                | Inr cleaned \<Rightarrow>
                    (case write_contacts cleaned w of
                       (Some e, w1) \<Rightarrow> (None, import_failed e w1)
                     | (None, w1) \<Rightarrow>
                         (let n = str_nat (length cleaned)
                          in (None, print (''Imported '' @ n @ '' contacts from contacts.json.'')
                                      (write_log ''INFO''
                                         (''Imported '' @ n @ '' contacts from JSON.'') w1)))))
           | _ \<Rightarrow> (None, import_failed (ValueError ''JSON must be a list of objects.'') w)))"

subsection \<open>Notions used in the statements\<close>

definition is_contact :: "contact \<Rightarrow> bool" where
  \<comment> \<open>a Contact of the data model: exactly a name, a phone and an email, each a text\<close>
  "is_contact c =
     (c = new_contact (field_text c ''Name'') (field_text c ''Phone'') (field_text c ''Email''))"

definition written_row :: "contact \<Rightarrow> row" where
  \<comment> \<open>the row of a dict that the writer accepts\<close>
  "written_row c = map (field_text c) FIELDNAMES"

definition trimmed :: "contact \<Rightarrow> bool" where
  \<comment> \<open>no field starts or ends with whitespace\<close>
  "trimmed c = list_all (\<lambda>key. strip (field_text c key) = field_text c key) FIELDNAMES"

definition header_and_rows :: "row list option \<Rightarrow> bool" where
  \<comment> \<open>the file exists and holds the header row, then rows of three fields\<close>
  "header_and_rows f =
     (case f of
        None \<Rightarrow> False
      | Some rows \<Rightarrow>
          (case rows of
             [] \<Rightarrow> False
           | h # rs \<Rightarrow> h = FIELDNAMES \<and> list_all (\<lambda>r. length r = length FIELDNAMES) rs))"

definition readable :: "string \<Rightarrow> bool" where
  \<comment> \<open>a field that \<open>read_contacts\<close> hands over as it was written: no carriage return,
      not over the limit of the reader\<close>
  "readable s = (CHR 0x0D \<notin> set s \<and> length s \<le> field_size_limit)"

definition readable_contact :: "contact \<Rightarrow> bool" where
  "readable_contact c = list_all (\<lambda>key. readable (field_text c key)) FIELDNAMES"



definition sample_world :: world where
  "sample_world =
     \<lparr>csv_file = Some [FIELDNAMES, [''Bob'', ''1'', ''bob@x.org''], [''Eve'', ''2'', ''eve@x.org''],
                        [''bob'', ''3'', ''b2@x.org'']],
      json_file = None, log_file = [], printed = []\<rparr>"


definition is_array :: "json \<Rightarrow> bool" where
  \<comment> \<open>\<^verbatim>\<open>isinstance(v, list)\<close>\<close>
  "is_array v = (case v of JArr _ \<Rightarrow> True | _ \<Rightarrow> False)"


definition fresh_world :: world where
  \<comment> \<open>before the first run: no file yet\<close>
  "fresh_world = \<lparr>csv_file = None, json_file = None, log_file = [], printed = []\<rparr>"

definition short_row_world :: world where
  \<comment> \<open>a store whose only data row has a name and nothing else\<close>
  "short_row_world =
     \<lparr>csv_file = Some [FIELDNAMES, [''Bob'']], json_file = None, log_file = [], printed = []\<rparr>"

definition padded_world :: world where
  \<comment> \<open>a store whose only contact has a name that starts with a space\<close>
  "padded_world =
     \<lparr>csv_file = Some [FIELDNAMES, ['' Bob'', ''1'', ''bob@x.org'']],
      json_file = None, log_file = [], printed = []\<rparr>"

definition stale_world :: world where
  \<comment> \<open>an empty store beside a JSON file left by an earlier export\<close>
  "stale_world =
     \<lparr>csv_file = Some [FIELDNAMES],
      json_file = Some (Document (JArr [JObj [(''Name'', JStr ''Old''), (''Phone'', JStr ''9''),
                                              (''Email'', JStr ''old@x.org'')]])),
      log_file = [], printed = []\<rparr>"

section \<open>Properties\<close>

subsection \<open>Reading back what was written\<close>

lemma is_contact_new_contact [simp]: "is_contact (new_contact n p e)"
  by (simp add: is_contact_def new_contact_def field_text_def)

lemma is_contactE: "is_contact c \<Longrightarrow> (\<And>n p e. c = new_contact n p e \<Longrightarrow> P) \<Longrightarrow> P"
  unfolding is_contact_def by metis

lemma written_row_new_contact [simp]: "written_row (new_contact n p e) = [n, p, e]"
  by (simp add: written_row_def new_contact_def field_text_def FIELDNAMES_def)

lemma dict_to_list_new_contact [simp]: "dict_to_list (new_contact n p e) = Inr [n, p, e]"
  by (simp add: dict_to_list_def new_contact_def field_text_def FIELDNAMES_def dict_keys_def)

lemma dict_to_list_contact: "is_contact c \<Longrightarrow> dict_to_list c = Inr (written_row c)"
  by (erule is_contactE) simp

lemma row_to_dict_new_contact [simp]: "row_to_dict FIELDNAMES [n, p, e] = new_contact n p e"
  by (simp add: row_to_dict_def new_contact_def FIELDNAMES_def)

lemma row_to_dict_contact: "is_contact c \<Longrightarrow> row_to_dict FIELDNAMES (written_row c) = c"
  by (erule is_contactE) simp

lemma written_row_nonempty [simp]: "written_row c \<noteq> []"
  by (simp add: written_row_def FIELDNAMES_def)

lemma length_written_row [simp]: "length (written_row c) = 3"
  by (simp add: written_row_def FIELDNAMES_def)

lemma writerows_contacts:
  "list_all is_contact cs \<Longrightarrow> writerows cs written = (None, written @ map written_row cs)"
  by (induction cs arbitrary: written) (simp_all add: dict_to_list_contact)

lemma DictReader_written:
  "list_all is_contact cs \<Longrightarrow> DictReader (FIELDNAMES # map written_row cs) = cs"
  by (induction cs) (simp_all add: DictReader_def row_to_dict_contact)

lemma write_contacts_contacts:
  "list_all is_contact cs \<Longrightarrow>
   write_contacts cs w = (None, w\<lparr>csv_file := Some (FIELDNAMES # map written_row cs)\<rparr>)"
  by (simp add: write_contacts_def writerows_contacts)

lemma universal_newlines_id: "CHR 0x0D \<notin> set s \<Longrightarrow> universal_newlines s = s"
  by (induction s rule: universal_newlines.induct) auto

lemma universal_newlines_no_CR: "CHR 0x0D \<notin> set (universal_newlines s)"
  by (induction s rule: universal_newlines.induct) simp_all

lemma readable_Nil [simp]: "readable []"
  by (simp add: readable_def)

lemma readable_contact_new_contact [simp]:
  "readable_contact (new_contact n p e) \<longleftrightarrow> readable n \<and> readable p \<and> readable e"
  by (simp add: readable_contact_def new_contact_def field_text_def FIELDNAMES_def)

lemma readable_FIELDNAMES: "list_all readable FIELDNAMES"
  by (simp add: FIELDNAMES_def readable_def field_size_limit_def)

lemma readable_written_row: "readable_contact c \<Longrightarrow> list_all readable (written_row c)"
  by (simp add: readable_contact_def written_row_def list_all_iff)

lemma csv_reader_readable:
  assumes "list_all (list_all readable) rows"
  shows "csv_reader rows = Inr rows"
proof -
  have id: "map (map universal_newlines) rows = rows"
    using assms by (auto simp: list_all_iff readable_def universal_newlines_id intro!: map_idI)
  have "\<not> field_size_limit < length f" if "r \<in> set rows" "f \<in> set r" for r f
  proof -
    from assms that have "readable f"
      by (simp add: list_all_iff)
    then show ?thesis
      by (simp add: readable_def)
  qed
  then have "\<not> list_ex (list_ex (\<lambda>f. field_size_limit < length f)) rows"
    by (auto simp: list_ex_iff)
  then show ?thesis
    by (simp add: csv_reader_def id)
qed

lemma csv_reader_Inr:
  assumes "csv_reader rows = Inr rs"
  shows "rs = map (map universal_newlines) rows \<and> list_all (list_all readable) rs"
proof -
  from assms have rs: "rs = map (map universal_newlines) rows"
    and small: "\<not> list_ex (list_ex (\<lambda>f. field_size_limit < length f)) rs"
    by (auto simp: csv_reader_def Let_def split: if_splits)
  have "readable f" if "r \<in> set rs" "f \<in> set r" for r f
  proof -
    from that rs have "CHR 0x0D \<notin> set f"
      by (auto simp: universal_newlines_no_CR)
    moreover from that small have "length f \<le> field_size_limit"
      by (auto simp: list_ex_iff not_less)
    ultimately show ?thesis
      by (simp add: readable_def)
  qed
  with rs show ?thesis
    by (simp add: list_all_iff)
qed

lemma map_of_fold_update_None:
  "map_of (fold (\<lambda>k. AList.update k None) ks d) key
     = (if key \<in> set ks then Some None else map_of d key)"
  by (induction ks arbitrary: d) (simp_all add: update_conv')

lemma map_of_fold_update_Some:
  "map_of (fold (\<lambda>(k, v). AList.update k (Some v)) kvs d) key = Some (Some x) \<Longrightarrow>
   map_of d key = Some (Some x) \<or> x \<in> snd ` set kvs"
  by (induction kvs arbitrary: d) (force simp: update_conv' split: if_splits)+

lemma field_text_row_to_dict: "field_text (row_to_dict h r) key \<in> insert [] (set r)"
proof (cases "map_of (fst (row_to_dict h r)) key")
  case None
  then show ?thesis by (simp add: field_text_def)
next
  case (Some v)
  show ?thesis
  proof (cases v)
    case None
    with Some show ?thesis by (simp add: field_text_def)
  next
    case (Some x)
    with \<open>map_of (fst (row_to_dict h r)) key = Some v\<close>
    have m: "map_of (fst (row_to_dict h r)) key = Some (Some x)"
      by simp
    then have "map_of (fold (\<lambda>(k, v). AList.update k (Some v)) (zip h r) []) key = Some (Some x)"
      by (simp add: row_to_dict_def Let_def map_of_fold_update_None split: if_splits)
    then have "x \<in> snd ` set (zip h r)"
      using map_of_fold_update_Some [of "zip h r" "[]" key x] by simp
    then have "x \<in> set r"
      by (auto dest: set_zip_rightD)
    with m show ?thesis
      by (simp add: field_text_def)
  qed
qed

lemma readable_row_to_dict:
  assumes "list_all readable r"
  shows "readable_contact (row_to_dict h r)"
proof -
  have "readable (field_text (row_to_dict h r) key)" for key
  proof (cases "field_text (row_to_dict h r) key = []")
    case True
    then show ?thesis by simp
  next
    case False
    with field_text_row_to_dict [of h r key] have "field_text (row_to_dict h r) key \<in> set r"
      by simp
    with assms show ?thesis
      by (simp add: list_all_iff)
  qed
  then show ?thesis
    by (simp add: readable_contact_def list_all_iff)
qed

lemma readable_DictReader:
  "list_all (list_all readable) rs \<Longrightarrow> list_all readable_contact (DictReader rs)"
  by (cases rs) (auto simp: DictReader_def list_all_iff readable_row_to_dict)

lemma read_contacts_stored:
  "csv_file w = Some rows \<Longrightarrow>
   read_contacts w
     = (case csv_reader rows of Inl e \<Rightarrow> Inl e | Inr rs \<Rightarrow> Inr (DictReader rs), w)"
  by (simp add: read_contacts_def ensure_csv_exists_def)

lemma read_contacts_snd: "snd (read_contacts w) = ensure_csv_exists w"
  by (simp add: read_contacts_def Let_def)

lemma read_contacts_readable:
  assumes "fst (read_contacts w) = Inr cs"
  shows "list_all readable_contact cs"
proof (cases "csv_file (ensure_csv_exists w)")
  case None
  with assms show ?thesis
    by (simp add: read_contacts_def Let_def)
next
  case (Some rows)
  with assms obtain rs where rs: "csv_reader rows = Inr rs" and cs: "cs = DictReader rs"
    by (auto simp: read_contacts_def Let_def split: sum.splits)
  from csv_reader_Inr [OF rs] have "list_all (list_all readable) rs"
    by blast
  then have "list_all readable_contact (DictReader rs)"
    by (rule readable_DictReader)
  then show ?thesis
    by (simp only: cs)
qed

lemma read_after_write:
  assumes "list_all is_contact cs" and "list_all readable_contact cs"
  shows "read_contacts (w\<lparr>csv_file := Some (FIELDNAMES # map written_row cs)\<rparr>)
     = (Inr cs, w\<lparr>csv_file := Some (FIELDNAMES # map written_row cs)\<rparr>)"
proof -
  have "list_all readable (written_row c)" if "c \<in> set cs" for c
  proof -
    from assms(2) that have "readable_contact c"
      by (simp add: list_all_iff)
    then show ?thesis
      by (rule readable_written_row)
  qed
  then have "list_all (list_all readable) (map written_row cs)"
    by (simp add: list_all_iff)
  then have "list_all (list_all readable) (FIELDNAMES # map written_row cs)"
    by (simp add: readable_FIELDNAMES)
  then have "csv_reader (FIELDNAMES # map written_row cs) = Inr (FIELDNAMES # map written_row cs)"
    by (rule csv_reader_readable)
  then show ?thesis
    by (simp add: read_contacts_stored DictReader_written [OF assms(1)])
qed

lemma read_contacts_print [simp]: "fst (read_contacts (print s w)) = fst (read_contacts w)"
  by (simp add: read_contacts_def print_def ensure_csv_exists_def Let_def split: option.splits)

lemma read_contacts_write_log [simp]:
  "fst (read_contacts (write_log l m w)) = fst (read_contacts w)"
  by (simp add: read_contacts_def write_log_def ensure_csv_exists_def Let_def split: option.splits)

lemma readable_short [simp]:
  "CHR 0x0D \<notin> set s \<Longrightarrow> length s \<le> 100 \<Longrightarrow> readable s"
  by (simp add: readable_def field_size_limit_def)

lemma sample_world_contacts:
  "fst (read_contacts sample_world) =
     Inr [new_contact ''Bob'' ''1'' ''bob@x.org'', new_contact ''Eve'' ''2'' ''eve@x.org'',
          new_contact ''bob'' ''3'' ''b2@x.org'']"
proof -
  let ?rows = "[FIELDNAMES, [''Bob'', ''1'', ''bob@x.org''], [''Eve'', ''2'', ''eve@x.org''],
                [''bob'', ''3'', ''b2@x.org'']]"
  have "list_all (list_all readable) ?rows"
    by (simp add: FIELDNAMES_def)
  then have "csv_reader ?rows = Inr ?rows"
    by (rule csv_reader_readable)
  then show ?thesis
    by (simp add: sample_world_def read_contacts_stored DictReader_def)
qed




subsection \<open>Add\<close>

text \<open>
  C2. When one of the three inputs is empty after trimming, \<open>add_contact\<close> only prints its
  message: the store file is the one it was (also when it was missing) and the log has no
  new line.
\<close>

theorem add_contact_blank_aborts:
  "strip name_in = [] \<or> strip phone_in = [] \<or> strip email_in = [] \<Longrightarrow>
   add_contact name_in phone_in email_in w = (None, print ''All fields are required.'' w)
   \<and> csv_file (snd (add_contact name_in phone_in email_in w)) = csv_file w
   \<and> log_file (snd (add_contact name_in phone_in email_in w)) = log_file w"
  by (auto simp: add_contact_def Let_def print_def)

theorem add_contact_blank_aborts_witness:
  "(strip ''Ann'' = [] \<or> strip ''   '' = [] \<or> strip ''ann@x.org'' = [])
   \<and> add_contact ''Ann'' ''   '' ''ann@x.org'' sample_world
       = (None, print ''All fields are required.'' sample_world)
   \<and> csv_file (snd (add_contact ''Ann'' ''   '' ''ann@x.org'' sample_world))
       = csv_file sample_world
   \<and> log_file (snd (add_contact ''Ann'' ''   '' ''ann@x.org'' sample_world))
       = log_file sample_world"
proof -
  have h: "strip ''Ann'' = [] \<or> strip ''   '' = [] \<or> strip ''ann@x.org'' = []"
    by (simp add: strip_def isspace_def)
  from h add_contact_blank_aborts [OF h, of sample_world] show ?thesis
    by blast
qed





subsection \<open>Search\<close>







lemma printed_ensure [simp]: "printed (ensure_csv_exists w) = printed w"
  by (simp add: ensure_csv_exists_def split: option.splits)

lemma log_file_ensure [simp]: "log_file (ensure_csv_exists w) = log_file w"
  by (simp add: ensure_csv_exists_def split: option.splits)

lemma json_file_ensure [simp]: "json_file (ensure_csv_exists w) = json_file w"
  by (simp add: ensure_csv_exists_def split: option.splits)

lemma read_contacts_Inr:
  "fst (read_contacts w) = Inr cs \<Longrightarrow> read_contacts w = (Inr cs, ensure_csv_exists w)"
  using read_contacts_snd [of w] by (cases "read_contacts w") simp



subsection \<open>Update\<close>









subsection \<open>Delete\<close>




subsection \<open>Import of a document that is not a list\<close>

text \<open>
  C7. When the JSON file parses to a value that is not an array, \<open>import_json\<close> takes its
  failure branch with the error "JSON must be a list of objects.": the store file is the
  one it was, and the log has exactly one new line, of level ERROR.
\<close>

theorem import_json_not_array:
  assumes "json_file w = Some (Document v)" and "\<not> is_array v"
  shows "import_json w = (None, import_failed (ValueError ''JSON must be a list of objects.'') w)
    \<and> csv_file (snd (import_json w)) = csv_file w
    \<and> log_file (snd (import_json w))
        = log_file w @ [(''ERROR'', ''Import JSON failed: JSON must be a list of objects.'')]"
proof -
  have a: "import_json w = (None, import_failed (ValueError ''JSON must be a list of objects.'') w)"
    using assms by (cases v) (simp_all add: import_json_def is_array_def)
  show ?thesis
    by (simp add: a import_failed_def write_log_def print_def)
qed

theorem import_json_not_array_witness:
  "json_file (sample_world\<lparr>json_file := Some (Document (JObj [(''Name'', JStr ''Al'')]))\<rparr>)
     = Some (Document (JObj [(''Name'', JStr ''Al'')]))
   \<and> \<not> is_array (JObj [(''Name'', JStr ''Al'')])
   \<and> csv_file (snd (import_json
        (sample_world\<lparr>json_file := Some (Document (JObj [(''Name'', JStr ''Al'')]))\<rparr>)))
       = csv_file (sample_world\<lparr>json_file := Some (Document (JObj [(''Name'', JStr ''Al'')]))\<rparr>)
   \<and> log_file (snd (import_json
        (sample_world\<lparr>json_file := Some (Document (JObj [(''Name'', JStr ''Al'')]))\<rparr>)))
       = log_file (sample_world\<lparr>json_file := Some (Document (JObj [(''Name'', JStr ''Al'')]))\<rparr>)
         @ [(''ERROR'', ''Import JSON failed: JSON must be a list of objects.'')]"
proof -
  have h1: "json_file (sample_world\<lparr>json_file := Some (Document (JObj [(''Name'', JStr ''Al'')]))\<rparr>)
     = Some (Document (JObj [(''Name'', JStr ''Al'')]))"
    by simp
  have h2: "\<not> is_array (JObj [(''Name'', JStr ''Al'')])"
    by (simp add: is_array_def)
  from h1 h2 import_json_not_array [OF h1 h2] show ?thesis
    by blast
qed

subsection \<open>Import of the empty list\<close>

lemma str_nat_0: "str_nat 0 = ''0''"
  by code_simp

lemma csv_reader_header: "csv_reader [FIELDNAMES] = Inr [FIELDNAMES]"
  by (rule csv_reader_readable) (simp add: readable_FIELDNAMES)

lemma read_contacts_header:
  "csv_file w = Some [FIELDNAMES] \<Longrightarrow> read_contacts w = (Inr [], w)"
  by (simp add: read_contacts_stored csv_reader_header DictReader_def)

lemma export_json_nothing:
  assumes "fst (read_contacts u) = Inr []"
  shows "export_json u = (None, print ''No contacts to export.'' (ensure_csv_exists u))"
  using read_contacts_Inr [OF assms] by (simp add: export_json_def)

text \<open>
  C9. When the JSON file parses to the empty array, \<open>import_json\<close> returns normally
  without taking its failure branch: the store file is the header alone, so it reads as no
  contact whatever it held, and the log has one new line, of level INFO, that reports 0
  imported contacts. \<open>export_json\<close>, run on the store so emptied (or on any store that
  reads as no contact), only prints its message: it writes no JSON file and no log line.
\<close>

theorem import_json_empty_array:
  assumes "json_file w = Some (Document (JArr []))"
  shows "fst (import_json w) = None
    \<and> csv_file (snd (import_json w)) = Some [FIELDNAMES]
    \<and> fst (read_contacts (snd (import_json w))) = Inr []
    \<and> log_file (snd (import_json w)) = log_file w @ [(''INFO'', ''Imported 0 contacts from JSON.'')]
    \<and> printed (snd (import_json w)) = printed w @ [''Imported 0 contacts from contacts.json.'']
    \<and> export_json (snd (import_json w))
        = (None, print ''No contacts to export.'' (snd (import_json w)))
    \<and> (fst (read_contacts v) = Inr [] \<longrightarrow>
         export_json v = (None, print ''No contacts to export.'' (ensure_csv_exists v))
         \<and> json_file (snd (export_json v)) = json_file v
         \<and> log_file (snd (export_json v)) = log_file v)"
proof -
  have i: "fst (import_json w) = None
    \<and> csv_file (snd (import_json w)) = Some [FIELDNAMES]
    \<and> log_file (snd (import_json w)) = log_file w @ [(''INFO'', ''Imported 0 contacts from JSON.'')]
    \<and> printed (snd (import_json w)) = printed w @ [''Imported 0 contacts from contacts.json.'']"
    using assms
    by (simp add: import_json_def write_contacts_def str_nat_0 write_log_def print_def)
  then have rd: "read_contacts (snd (import_json w)) = (Inr [], snd (import_json w))"
    by (simp add: read_contacts_header)
  have s: "ensure_csv_exists (snd (import_json w)) = snd (import_json w)"
    using i by (simp add: ensure_csv_exists_def)
  have "export_json (snd (import_json w))
        = (None, print ''No contacts to export.'' (snd (import_json w)))"
    using export_json_nothing [of "snd (import_json w)"] rd s by simp
  moreover have "fst (read_contacts v) = Inr [] \<longrightarrow>
         export_json v = (None, print ''No contacts to export.'' (ensure_csv_exists v))
         \<and> json_file (snd (export_json v)) = json_file v
         \<and> log_file (snd (export_json v)) = log_file v"
    using export_json_nothing [of v] by (simp add: print_def)
  moreover have "fst (read_contacts (snd (import_json w))) = Inr []"
    using rd by simp
  ultimately show ?thesis
    using i by blast
qed

theorem import_json_empty_array_witness:
  "json_file (sample_world\<lparr>json_file := Some (Document (JArr []))\<rparr>) = Some (Document (JArr []))
   \<and> fst (read_contacts (sample_world\<lparr>json_file := Some (Document (JArr []))\<rparr>)) \<noteq> Inr []
   \<and> fst (import_json (sample_world\<lparr>json_file := Some (Document (JArr []))\<rparr>)) = None
   \<and> csv_file (snd (import_json (sample_world\<lparr>json_file := Some (Document (JArr []))\<rparr>)))
       = Some [FIELDNAMES]
   \<and> fst (read_contacts (snd (import_json (sample_world\<lparr>json_file := Some (Document (JArr []))\<rparr>))))
       = Inr []
   \<and> log_file (snd (import_json (sample_world\<lparr>json_file := Some (Document (JArr []))\<rparr>)))
       = log_file (sample_world\<lparr>json_file := Some (Document (JArr []))\<rparr>)
         @ [(''INFO'', ''Imported 0 contacts from JSON.'')]
   \<and> fst (read_contacts fresh_world) = Inr []
   \<and> json_file (snd (export_json fresh_world)) = json_file fresh_world
   \<and> log_file (snd (export_json fresh_world)) = log_file fresh_world"
proof -
  have h: "json_file (sample_world\<lparr>json_file := Some (Document (JArr []))\<rparr>)
      = Some (Document (JArr []))"
    by simp
  have "fst (read_contacts (sample_world\<lparr>json_file := Some (Document (JArr []))\<rparr>))
      = fst (read_contacts sample_world)"
    by (simp add: read_contacts_def ensure_csv_exists_def sample_world_def)
  then have n: "fst (read_contacts (sample_world\<lparr>json_file := Some (Document (JArr []))\<rparr>)) \<noteq> Inr []"
    by (simp add: sample_world_contacts)
  have f: "fst (read_contacts fresh_world) = Inr []"
    by (simp add: fresh_world_def read_contacts_def ensure_csv_exists_def csv_reader_header
        DictReader_def)
  from h n f import_json_empty_array [OF h, of fresh_world] show ?thesis
    by blast
qed

subsection \<open>The shape of the store file\<close>

lemma dict_to_list_Inr: "dict_to_list d = Inr r \<Longrightarrow> r = written_row d"
  by (simp add: dict_to_list_def written_row_def Let_def split: if_splits)

lemma writerows_prefix:
  "\<exists>k\<le>length cs. snd (writerows cs written) = written @ map written_row (take k cs)"
proof (induction cs arbitrary: written)
  case Nil
  show ?case by simp
next
  case (Cons d ds)
  show ?case
  proof (cases "dict_to_list d")
    case (Inl e)
    then have "snd (writerows (d # ds) written) = written @ map written_row (take 0 (d # ds))"
      by simp
    then show ?thesis by blast
  next
    case (Inr r)
    from Cons [of "written @ [r]"] obtain k where
      k: "k \<le> length ds"
        "snd (writerows ds (written @ [r])) = (written @ [r]) @ map written_row (take k ds)"
      by blast
    from Inr have r: "r = written_row d"
      by (rule dict_to_list_Inr)
    have "snd (writerows (d # ds) written) = written @ map written_row (take (Suc k) (d # ds))"
      using Inr k(2) r by simp
    moreover have "Suc k \<le> length (d # ds)"
      using k(1) by simp
    ultimately show ?thesis by blast
  qed
qed

lemma writerows_complete:
  "fst (writerows cs written) = None \<Longrightarrow>
   snd (writerows cs written) = written @ map written_row cs"
proof (induction cs arbitrary: written)
  case Nil
  show ?case by simp
next
  case (Cons d ds)
  then show ?case
    by (cases "dict_to_list d") (auto dest: dict_to_list_Inr)
qed

lemma header_and_rows_written [simp]:
  "header_and_rows (Some (FIELDNAMES # map written_row cs))"
  by (simp add: header_and_rows_def list_all_iff FIELDNAMES_def written_row_def)

lemma csv_file_write_contacts:
  "csv_file (snd (write_contacts cs w)) = Some (snd (writerows cs [FIELDNAMES]))"
  by (simp add: write_contacts_def split: prod.splits)

lemma fst_write_contacts: "fst (write_contacts cs w) = fst (writerows cs [FIELDNAMES])"
  by (simp add: write_contacts_def split: prod.splits)

lemma write_contacts_shape: "header_and_rows (csv_file (snd (write_contacts cs w)))"
proof -
  from writerows_prefix [of cs "[FIELDNAMES]"] obtain k where
    "snd (writerows cs [FIELDNAMES]) = [FIELDNAMES] @ map written_row (take k cs)"
    by blast
  then show ?thesis
    by (simp add: csv_file_write_contacts)
qed

lemma write_contacts_exact:
  "fst (write_contacts cs w) = None \<Longrightarrow>
   csv_file (snd (write_contacts cs w)) = Some (FIELDNAMES # map written_row cs)"
  by (simp add: csv_file_write_contacts fst_write_contacts writerows_complete)

lemma ensure_shape:
  "csv_file (ensure_csv_exists w) = csv_file w \<or> header_and_rows (csv_file (ensure_csv_exists w))"
  by (simp add: ensure_csv_exists_def header_and_rows_def split: option.splits)

lemma csv_file_print [simp]: "csv_file (print s w) = csv_file w"
  by (simp add: print_def)

lemma csv_file_write_log [simp]: "csv_file (write_log l m w) = csv_file w"
  by (simp add: write_log_def)

lemma read_contacts_cases:
  obtains (error) e where "read_contacts w = (Inl e, ensure_csv_exists w)"
  | (contacts) cs where "read_contacts w = (Inr cs, ensure_csv_exists w)"
  using read_contacts_snd [of w]
  by (cases "read_contacts w"; cases "fst (read_contacts w)") auto

lemma add_contact_shape:
  "csv_file (snd (add_contact n p e w)) = csv_file w
   \<or> header_and_rows (csv_file (snd (add_contact n p e w)))"
proof (cases "strip n = [] \<or> strip p = [] \<or> strip e = []")
  case True
  then show ?thesis
    by (auto simp: add_contact_def Let_def)
next
  case False
  show ?thesis
  proof (cases w rule: read_contacts_cases)
    case (error x)
    with False show ?thesis
      using ensure_shape [of w] by (auto simp: add_contact_def Let_def)
  next
    case (contacts cs)
    let ?cs = "cs @ [new_contact (strip n) (strip p) (strip e)]"
    have "csv_file (snd (add_contact n p e w))
        = csv_file (snd (write_contacts ?cs (ensure_csv_exists w)))"
      using False contacts
      by (cases "write_contacts ?cs (ensure_csv_exists w)")
        (auto simp: add_contact_def Let_def split: option.splits)
    then show ?thesis
      by (simp add: write_contacts_shape)
  qed
qed

lemma update_loop_shape:
  "csv_file (snd (update_loop name p e passed cs w)) = csv_file w
   \<or> header_and_rows (csv_file (snd (update_loop name p e passed cs w)))"
proof (induction cs arbitrary: passed)
  case Nil
  show ?case by simp
next
  case (Cons c cs)
  show ?case
  proof (cases "name_lower c")
    case (Inl x)
    then show ?thesis by simp
  next
    case (Inr n)
    show ?thesis
    proof (cases "n = lower name")
      case False
      with Inr Cons [of "passed @ [c]"] show ?thesis by simp
    next
      case True
      show ?thesis
      proof (cases "subscript c ''Phone''")
        case (Inl x)
        with Inr True show ?thesis by simp
      next
        case (Inr ph)
        let ?c1 = "if strip p \<noteq> [] then setitem c ''Phone'' (strip p) else c"
        let ?c2 = "if strip e \<noteq> [] then setitem ?c1 ''Email'' (strip e) else ?c1"
        let ?w1 = "print (''Current phone: '' @ format_value ph) w"
        have "csv_file (snd (update_loop name p e passed (c # cs) w))
            = csv_file (snd (write_contacts (passed @ ?c2 # cs) ?w1))"
          using \<open>name_lower c = Inr n\<close> True Inr
          by (cases "write_contacts (passed @ ?c2 # cs) ?w1")
            (auto simp: Let_def split: option.splits)
        then show ?thesis
          by (simp add: write_contacts_shape)
      qed
    qed
  qed
qed

lemma update_contact_shape:
  "csv_file (snd (update_contact n p e w)) = csv_file w
   \<or> header_and_rows (csv_file (snd (update_contact n p e w)))"
proof (cases w rule: read_contacts_cases)
  case (error x)
  then show ?thesis
    using ensure_shape [of w] by (auto simp: update_contact_def Let_def)
next
  case (contacts cs)
  then have u: "update_contact n p e w = update_loop (strip n) p e [] cs (ensure_csv_exists w)"
    by (simp add: update_contact_def Let_def)
  show ?thesis
    using update_loop_shape [of "strip n" p e "[]" cs "ensure_csv_exists w"] ensure_shape [of w]
    by (auto simp: u)
qed

lemma delete_contact_shape:
  "csv_file (snd (delete_contact n w)) = csv_file w
   \<or> header_and_rows (csv_file (snd (delete_contact n w)))"
proof (cases w rule: read_contacts_cases)
  case (error x)
  then show ?thesis
    using ensure_shape [of w] by (auto simp: delete_contact_def Let_def)
next
  case (contacts cs)
  let ?w1 = "ensure_csv_exists w"
  show ?thesis
  proof (cases "comprehension (\<lambda>x. x \<noteq> lower (strip n)) cs")
    case (Inl x)
    then show ?thesis
      using contacts ensure_shape [of w] by (auto simp: delete_contact_def Let_def)
  next
    case (Inr new)
    show ?thesis
    proof (cases "length new = length cs")
      case True
      with Inr show ?thesis
        using contacts ensure_shape [of w] by (auto simp: delete_contact_def Let_def)
    next
      case False
      have "csv_file (snd (delete_contact n w)) = csv_file (snd (write_contacts new ?w1))"
        using contacts Inr False
        by (cases "write_contacts new ?w1")
          (auto simp: delete_contact_def Let_def split: option.splits)
      then show ?thesis
        by (simp add: write_contacts_shape)
    qed
  qed
qed

lemma csv_file_import_failed [simp]: "csv_file (import_failed e w) = csv_file w"
  by (simp add: import_failed_def)

lemma import_json_shape:
  "csv_file (snd (import_json w)) = csv_file w
   \<or> header_and_rows (csv_file (snd (import_json w)))"
proof (cases "json_file w")
  case None
  then show ?thesis by (simp add: import_json_def)
next
  case (Some t)
  show ?thesis
  proof (cases t)
    case (Malformed m)
    with Some show ?thesis by (simp add: import_json_def)
  next
    case (Document v)
    show ?thesis
    proof (cases "\<exists>elems. v = JArr elems")
      case False
      with Some Document show ?thesis
        by (cases v) (simp_all add: import_json_def)
    next
      case True
      then obtain elems where v: "v = JArr elems" by blast
      show ?thesis
      proof (cases "clean_all elems")
        case (Inl x)
        with Some Document v show ?thesis by (simp add: import_json_def)
      next
        case (Inr cleaned)
        have "csv_file (snd (import_json w)) = csv_file (snd (write_contacts cleaned w))"
          using Some Document v Inr
          by (cases "write_contacts cleaned w")
            (auto simp: import_json_def Let_def split: option.splits)
        then show ?thesis
          by (simp add: write_contacts_shape)
      qed
    qed
  qed
qed

lemma three_fields: "length r = 3 \<Longrightarrow> \<exists>a b c. r = [a, b, c]"
  by (cases r; cases "tl r"; cases "tl (tl r)") auto

lemma row_to_dict_three:
  assumes "length r = length FIELDNAMES"
  shows "is_contact (row_to_dict FIELDNAMES r) \<and> written_row (row_to_dict FIELDNAMES r) = r \<and> r \<noteq> []"
proof -
  from assms have "length r = 3"
    by (simp add: FIELDNAMES_def)
  then obtain a b c where "r = [a, b, c]"
    using three_fields by blast
  then show ?thesis
    by simp
qed

lemma DictReader_three:
  "list_all (\<lambda>r. length r = length FIELDNAMES) rs \<Longrightarrow>
   list_all is_contact (DictReader (FIELDNAMES # rs))
   \<and> map written_row (DictReader (FIELDNAMES # rs)) = rs"
  by (induction rs) (simp_all add: DictReader_def row_to_dict_three)

lemma header_and_rows_read:
  assumes "csv_file w = Some (FIELDNAMES # rows)"
    and "list_all (\<lambda>r. length r = length FIELDNAMES) rows"
    and "fst (read_contacts w) = Inr cs"
  shows "list_all is_contact cs \<and> map written_row cs = map (map universal_newlines) rows"
proof -
  from assms(1,3) obtain rs where rs: "csv_reader (FIELDNAMES # rows) = Inr rs"
    and cs: "cs = DictReader rs"
    by (auto simp: read_contacts_stored split: sum.splits)
  have "map universal_newlines FIELDNAMES = FIELDNAMES"
    by (simp add: FIELDNAMES_def)
  with csv_reader_Inr [OF rs] have "rs = FIELDNAMES # map (map universal_newlines) rows"
    by simp
  moreover have "list_all (\<lambda>r. length r = length FIELDNAMES) (map (map universal_newlines) rows)"
    using assms(2) by (simp add: list_all_iff)
  ultimately show ?thesis
    using DictReader_three [of "map (map universal_newlines) rows"] cs by simp
qed

lemma header_and_rows_read_readable:
  assumes "csv_file w = Some (FIELDNAMES # rows)"
    and "list_all (\<lambda>r. length r = length FIELDNAMES) rows"
    and "list_all (list_all readable) rows"
  shows "fst (read_contacts w) = Inr (DictReader (FIELDNAMES # rows))
    \<and> csv_file w = Some (FIELDNAMES # map written_row (DictReader (FIELDNAMES # rows)))"
proof -
  have "csv_reader (FIELDNAMES # rows) = Inr (FIELDNAMES # rows)"
    using assms(3) by (intro csv_reader_readable) (simp add: readable_FIELDNAMES)
  then show ?thesis
    using DictReader_three [OF assms(2)] by (simp add: read_contacts_stored assms(1))
qed

text \<open>
  C10. \<open>ensure_csv_exists\<close> creates a missing store file as the header row alone. A
  \<open>write_contacts\<close> that returns normally leaves the file as the header row followed by
  one row per contact, in the order given; whatever it is given, it leaves a header row
  followed by rows of three fields. Each of \<open>add_contact\<close>, \<open>update_contact\<close>,
  \<open>delete_contact\<close> and \<open>import_json\<close>, on any store and any input, leaves the store file
  either as it was or as a header row followed by rows of three fields: the only places
  that write it are \<open>ensure_csv_exists\<close> and \<open>write_contacts\<close>. And a file of that shape,
  when it can be read, reads as one contact for each row, in order, with the fields of
  the row as the file hands them over; when no field of it holds a carriage return or is
  over the limit of the reader, it can be read, and it is exactly the header row followed
  by one row for each contact it reads as.
\<close>

theorem store_file_header_and_rows:
  "(csv_file w = None \<longrightarrow> csv_file (ensure_csv_exists w) = Some [FIELDNAMES])
   \<and> (fst (write_contacts cs w) = None \<longrightarrow>
        csv_file (snd (write_contacts cs w)) = Some (FIELDNAMES # map written_row cs)
        \<and> length (map written_row cs) = length cs)
   \<and> header_and_rows (csv_file (snd (write_contacts cs w)))
   \<and> (csv_file (snd (add_contact n p e w)) = csv_file w
        \<or> header_and_rows (csv_file (snd (add_contact n p e w))))
   \<and> (csv_file (snd (update_contact n p e w)) = csv_file w
        \<or> header_and_rows (csv_file (snd (update_contact n p e w))))
   \<and> (csv_file (snd (delete_contact n w)) = csv_file w
        \<or> header_and_rows (csv_file (snd (delete_contact n w))))
   \<and> (csv_file (snd (import_json w)) = csv_file w
        \<or> header_and_rows (csv_file (snd (import_json w))))
   \<and> (header_and_rows (csv_file u) \<and> csv_file u = Some (FIELDNAMES # rows)
        \<and> fst (read_contacts u) = Inr ds \<longrightarrow>
        list_all is_contact ds \<and> map written_row ds = map (map universal_newlines) rows)
   \<and> (header_and_rows (csv_file u) \<and> csv_file u = Some (FIELDNAMES # rows)
        \<and> list_all (list_all readable) rows \<longrightarrow>
        fst (read_contacts u) = Inr (DictReader (FIELDNAMES # rows))
        \<and> list_all is_contact (DictReader (FIELDNAMES # rows))
        \<and> csv_file u = Some (FIELDNAMES # map written_row (DictReader (FIELDNAMES # rows))))"
proof -
  have "csv_file w = None \<longrightarrow> csv_file (ensure_csv_exists w) = Some [FIELDNAMES]"
    by (simp add: ensure_csv_exists_def)
  moreover have "header_and_rows (csv_file u) \<and> csv_file u = Some (FIELDNAMES # rows)
        \<and> fst (read_contacts u) = Inr ds \<longrightarrow>
        list_all is_contact ds \<and> map written_row ds = map (map universal_newlines) rows"
    using header_and_rows_read [of u rows ds] by (auto simp: header_and_rows_def)
  moreover have "header_and_rows (csv_file u) \<and> csv_file u = Some (FIELDNAMES # rows)
        \<and> list_all (list_all readable) rows \<longrightarrow>
        fst (read_contacts u) = Inr (DictReader (FIELDNAMES # rows))
        \<and> list_all is_contact (DictReader (FIELDNAMES # rows))
        \<and> csv_file u = Some (FIELDNAMES # map written_row (DictReader (FIELDNAMES # rows)))"
    using header_and_rows_read_readable [of u rows] DictReader_three [of rows]
    by (auto simp: header_and_rows_def)
  moreover have "fst (write_contacts cs w) = None \<longrightarrow>
        csv_file (snd (write_contacts cs w)) = Some (FIELDNAMES # map written_row cs)
        \<and> length (map written_row cs) = length cs"
    by (simp add: write_contacts_exact)
  ultimately show ?thesis
    using write_contacts_shape [of cs w] add_contact_shape [of n p e w]
      update_contact_shape [of n p e w] delete_contact_shape [of n w] import_json_shape [of w]
    by blast
qed

theorem store_file_header_and_rows_witness:
  "csv_file fresh_world = None
   \<and> csv_file (ensure_csv_exists fresh_world) = Some [FIELDNAMES]
   \<and> fst (write_contacts [new_contact ''Al'' ''4'' ''al@x.org'', new_contact ''Bea'' ''5'' ''bea@x.org'']
        fresh_world) = None
   \<and> csv_file (snd (write_contacts
        [new_contact ''Al'' ''4'' ''al@x.org'', new_contact ''Bea'' ''5'' ''bea@x.org''] fresh_world))
       = Some (FIELDNAMES # map written_row
           [new_contact ''Al'' ''4'' ''al@x.org'', new_contact ''Bea'' ''5'' ''bea@x.org''])
   \<and> map written_row [new_contact ''Al'' ''4'' ''al@x.org'', new_contact ''Bea'' ''5'' ''bea@x.org'']
       = [[''Al'', ''4'', ''al@x.org''], [''Bea'', ''5'', ''bea@x.org'']]
   \<and> header_and_rows (csv_file (snd (write_contacts
        [new_contact ''Al'' ''4'' ''al@x.org'', new_contact ''Bea'' ''5'' ''bea@x.org''] fresh_world)))
   \<and> header_and_rows (csv_file sample_world)
   \<and> csv_file sample_world
       = Some (FIELDNAMES # [[''Bob'', ''1'', ''bob@x.org''], [''Eve'', ''2'', ''eve@x.org''],
                              [''bob'', ''3'', ''b2@x.org'']])
   \<and> list_all (list_all readable)
        [[''Bob'', ''1'', ''bob@x.org''], [''Eve'', ''2'', ''eve@x.org''], [''bob'', ''3'', ''b2@x.org'']]
   \<and> fst (read_contacts sample_world)
       = Inr (DictReader (FIELDNAMES # [[''Bob'', ''1'', ''bob@x.org''],
                [''Eve'', ''2'', ''eve@x.org''], [''bob'', ''3'', ''b2@x.org'']]))
   \<and> list_all is_contact (DictReader (FIELDNAMES # [[''Bob'', ''1'', ''bob@x.org''],
                [''Eve'', ''2'', ''eve@x.org''], [''bob'', ''3'', ''b2@x.org'']]))
   \<and> map written_row (DictReader (FIELDNAMES # [[''Bob'', ''1'', ''bob@x.org''],
                [''Eve'', ''2'', ''eve@x.org''], [''bob'', ''3'', ''b2@x.org'']]))
       = map (map universal_newlines)
           [[''Bob'', ''1'', ''bob@x.org''], [''Eve'', ''2'', ''eve@x.org''], [''bob'', ''3'', ''b2@x.org'']]
   \<and> csv_file sample_world
       = Some (FIELDNAMES # map written_row (DictReader (FIELDNAMES # [[''Bob'', ''1'', ''bob@x.org''],
                [''Eve'', ''2'', ''eve@x.org''], [''bob'', ''3'', ''b2@x.org'']])))"
proof -
  let ?cs = "[new_contact ''Al'' ''4'' ''al@x.org'', new_contact ''Bea'' ''5'' ''bea@x.org'']"
  let ?rows = "[[''Bob'', ''1'', ''bob@x.org''], [''Eve'', ''2'', ''eve@x.org''],
                [''bob'', ''3'', ''b2@x.org'']]"
  have h1: "csv_file fresh_world = None"
    by (simp add: fresh_world_def)
  have h2: "fst (write_contacts ?cs fresh_world) = None"
    by (simp add: write_contacts_def)
  have v: "map written_row ?cs = [[''Al'', ''4'', ''al@x.org''], [''Bea'', ''5'', ''bea@x.org'']]"
    by simp
  have h3: "header_and_rows (csv_file sample_world)"
    by (simp add: sample_world_def header_and_rows_def FIELDNAMES_def)
  have h4: "csv_file sample_world = Some (FIELDNAMES # ?rows)"
    by (simp add: sample_world_def)
  have h5: "list_all (list_all readable) ?rows"
    by simp
  note t = store_file_header_and_rows [of fresh_world ?cs _ _ _ sample_world ?rows
      "DictReader (FIELDNAMES # ?rows)"]
  from h1 h2 h3 h4 h5 v t show ?thesis
    by blast
qed

subsection \<open>Rows with missing fields\<close>

lemma row_to_dict_short:
  assumes "length r < length fieldnames" and "key \<in> set (drop (length r) fieldnames)"
  shows "subscript (row_to_dict fieldnames r) key = Inr None"
  using assms by (simp add: row_to_dict_def subscript_def Let_def map_of_fold_update_None)

lemma short_row_world_contacts:
  "read_contacts short_row_world
     = (Inr [([(''Name'', Some ''Bob''), (''Phone'', None), (''Email'', None)], None)],
        short_row_world)"
proof -
  have "csv_reader [FIELDNAMES, [''Bob'']] = Inr [FIELDNAMES, [''Bob'']]"
    by (rule csv_reader_readable) (simp add: FIELDNAMES_def)
  then show ?thesis
    by (simp add: short_row_world_def read_contacts_stored DictReader_def row_to_dict_def
        FIELDNAMES_def)
qed

text \<open>
  C8. The code does not do what the claim says. The row \<open>Bob\<close> under the header
  \<open>Name,Phone,Email\<close> is read as a contact whose phone and email are \<^verbatim>\<open>None\<close>, not the
  empty text. What the rest of the program does with it shows that the empty text is
  what is meant: \<open>list_contacts\<close> ends with a TypeError on it, and after \<open>export_json\<close> and
  \<open>import_json\<close> the contact has the text \<open>None\<close> as its phone and its email.
\<close>

theorem read_contacts_short_row_None:
  "fst (read_contacts short_row_world)
     = Inr [([(''Name'', Some ''Bob''), (''Phone'', None), (''Email'', None)], None)]
   \<and> subscript ([(''Name'', Some ''Bob''), (''Phone'', None), (''Email'', None)], None) ''Phone''
       \<noteq> Inr (Some [])
   \<and> fst (list_contacts short_row_world)
       = Some (TypeError ([CHR 0x27] @ ''NoneType'' @ [CHR 0x27] @ '' object is not subscriptable''))
   \<and> fst (read_contacts (snd (import_json (snd (export_json short_row_world)))))
       = Inr [new_contact ''Bob'' ''None'' ''None'']"
proof -
  let ?c = "([(''Name'', Some ''Bob''), (''Phone'', None), (''Email'', None)], None) :: contact"
  have l: "fst (list_contacts short_row_world)
       = Some (TypeError ([CHR 0x27] @ ''NoneType'' @ [CHR 0x27] @ '' object is not subscriptable''))"
    by (simp add: list_contacts_def short_row_world_contacts list_line_def column_def
        subscript_def)
  have ex: "export_json short_row_world =
      (None, print (''Exported '' @ str_nat 1 @ '' contacts to contacts.json.'')
               (write_log ''INFO'' (''Exported '' @ str_nat 1 @ '' contacts to JSON.'')
                  (short_row_world\<lparr>json_file := Some (Document (JArr
                     [JObj [(''Name'', JStr ''Bob''), (''Phone'', JNull), (''Email'', JNull)]]))\<rparr>)))"
    by (simp add: export_json_def short_row_world_contacts json_dump_def Let_def)
  have s: "strip ''Bob'' = ''Bob''" "strip ''None'' = ''None''"
    by (simp_all add: strip_def isspace_def)
  have cl: "clean (JObj [(''Name'', JStr ''Bob''), (''Phone'', JNull), (''Email'', JNull)])
      = Inr (new_contact ''Bob'' ''None'' ''None'')"
    by (simp add: clean_def get_def py_str_def s)
  have all: "list_all is_contact [new_contact ''Bob'' ''None'' ''None'']"
    and rd: "list_all readable_contact [new_contact ''Bob'' ''None'' ''None'']"
    by simp_all
  define we where "we = snd (export_json short_row_world)"
  have j: "json_file we = Some (Document (JArr
      [JObj [(''Name'', JStr ''Bob''), (''Phone'', JNull), (''Email'', JNull)]]))"
    by (simp add: we_def ex print_def write_log_def)
  have im: "import_json we =
      (None, print (''Imported '' @ str_nat 1 @ '' contacts from contacts.json.'')
               (write_log ''INFO'' (''Imported '' @ str_nat 1 @ '' contacts from JSON.'')
                  (we\<lparr>csv_file := Some (FIELDNAMES # map written_row
                     [new_contact ''Bob'' ''None'' ''None''])\<rparr>)))"
    using write_contacts_contacts [OF all, of we] by (simp add: import_json_def j cl Let_def)
  have "fst (read_contacts (snd (import_json we))) = Inr [new_contact ''Bob'' ''None'' ''None'']"
    by (simp only: im snd_conv read_contacts_print read_contacts_write_log
        read_after_write [OF all rd] fst_conv)
  then show ?thesis
    using l by (simp add: short_row_world_contacts subscript_def we_def)
qed

subsection \<open>Export, then import\<close>

lemma trimmed_new_contact:
  "trimmed (new_contact n p e) \<longleftrightarrow> strip n = n \<and> strip p = p \<and> strip e = e"
  by (simp add: trimmed_def new_contact_def field_text_def FIELDNAMES_def)

lemma json_dump_Cons:
  "json_dump (c # cs) =
     JArr (JObj (map (\<lambda>(k, v). (k, case v of None \<Rightarrow> JNull | Some s \<Rightarrow> JStr s)) (fst c)
                 @ (case snd c of None \<Rightarrow> [] | Some xs \<Rightarrow> [(''null'', JArr (map JStr xs))]))
           # (case json_dump cs of JArr elems \<Rightarrow> elems | _ \<Rightarrow> []))"
  by (simp add: json_dump_def)

lemma clean_dumped_contact:
  assumes "is_contact c" and "trimmed c"
  shows "clean (JObj (map (\<lambda>(k, v). (k, case v of None \<Rightarrow> JNull | Some s \<Rightarrow> JStr s)) (fst c)
                 @ (case snd c of None \<Rightarrow> [] | Some xs \<Rightarrow> [(''null'', JArr (map JStr xs))]))) = Inr c"
proof -
  from assms(1) obtain n p e where c: "c = new_contact n p e"
    by (rule is_contactE)
  with assms(2) have "strip n = n" "strip p = p" "strip e = e"
    by (simp_all add: trimmed_new_contact)
  then show ?thesis
    by (simp add: c new_contact_def clean_def get_def py_str_def)
qed

lemma clean_all_dump:
  "list_all is_contact cs \<Longrightarrow> list_all trimmed cs \<Longrightarrow>
   \<exists>elems. json_dump cs = JArr elems \<and> clean_all elems = Inr cs"
proof (induction cs)
  case Nil
  show ?case by (simp add: json_dump_def)
next
  case (Cons c cs)
  then obtain elems where e: "json_dump cs = JArr elems" "clean_all elems = Inr cs"
    by auto
  from Cons.prems have "is_contact c" "trimmed c"
    by simp_all
  then show ?case
    by (simp add: json_dump_Cons e clean_dumped_contact)
qed

lemma import_json_read:
  assumes "json_file w = Some (Document (JArr elems))" and "clean_all elems = Inr ds"
    and "list_all is_contact ds" and "list_all readable_contact ds"
  shows "fst (import_json w) = None \<and> fst (read_contacts (snd (import_json w))) = Inr ds"
proof -
  define n where "n = str_nat (length ds)"
  define ws where "ws = w\<lparr>csv_file := Some (FIELDNAMES # map written_row ds)\<rparr>"
  have wc: "write_contacts ds w = (None, ws)"
    unfolding ws_def by (rule write_contacts_contacts [OF assms(3)])
  have im: "import_json w =
      (None, print (''Imported '' @ n @ '' contacts from contacts.json.'')
               (write_log ''INFO'' (''Imported '' @ n @ '' contacts from JSON.'') ws))"
    by (simp add: import_json_def assms(1,2) wc Let_def n_def)
  have b: "fst (read_contacts ws) = Inr ds"
    unfolding ws_def by (simp only: read_after_write [OF assms(3,4)] fst_conv)
  have "fst (read_contacts (snd (import_json w))) = Inr ds"
    by (simp only: im snd_conv read_contacts_print read_contacts_write_log b)
  then show ?thesis
    by (simp add: im)
qed

lemma export_json_written:
  assumes "fst (read_contacts w) = Inr cs" and "cs \<noteq> []"
  shows "fst (export_json w) = None
    \<and> json_file (snd (export_json w)) = Some (Document (json_dump cs))"
  using read_contacts_Inr [OF assms(1)] assms(2)
  by (simp add: export_json_def Let_def print_def write_log_def)

lemma export_import_read:
  assumes "fst (read_contacts w) = Inr cs" and "cs \<noteq> []"
    and "json_dump cs = JArr elems" and "clean_all elems = Inr ds"
    and "list_all is_contact ds" and "list_all readable_contact ds"
  shows "fst (export_json w) = None
    \<and> fst (import_json (snd (export_json w))) = None
    \<and> fst (read_contacts (snd (import_json (snd (export_json w))))) = Inr ds"
proof -
  from export_json_written [OF assms(1,2)] assms(3)
  have e: "fst (export_json w) = None"
    and j: "json_file (snd (export_json w)) = Some (Document (JArr elems))"
    by simp_all
  from import_json_read [OF j assms(4-6)] e show ?thesis
    by simp
qed

lemma padded_world_contacts:
  "fst (read_contacts padded_world) = Inr [new_contact '' Bob'' ''1'' ''bob@x.org'']"
proof -
  have "csv_reader [FIELDNAMES, ['' Bob'', ''1'', ''bob@x.org'']]
      = Inr [FIELDNAMES, ['' Bob'', ''1'', ''bob@x.org'']]"
    by (rule csv_reader_readable) (simp add: FIELDNAMES_def)
  then show ?thesis
    by (simp add: padded_world_def read_contacts_stored DictReader_def)
qed

text \<open>
  C1, as the claim states it, fails: a store whose one contact has the name \<open>Bob\<close> with a
  space in front has no blank field, and after \<open>export_json\<close> and \<open>import_json\<close> it reads
  as a contact with the name \<open>Bob\<close>, because the import trims every field. It also fails
  on the store without contacts: \<open>export_json\<close> writes no file for it, and \<open>import_json\<close>
  then loads whatever an earlier export has left.
\<close>

theorem export_import_padded_counterexample:
  "fst (read_contacts padded_world) = Inr [new_contact '' Bob'' ''1'' ''bob@x.org'']
   \<and> fst (read_contacts (snd (import_json (snd (export_json padded_world)))))
       = Inr [new_contact ''Bob'' ''1'' ''bob@x.org'']
   \<and> fst (read_contacts (snd (import_json (snd (export_json padded_world)))))
       \<noteq> fst (read_contacts padded_world)
   \<and> fst (read_contacts stale_world) = Inr []
   \<and> fst (read_contacts (snd (import_json (snd (export_json stale_world)))))
       = Inr [new_contact ''Old'' ''9'' ''old@x.org'']"
proof -
  have s: "strip '' Bob'' = ''Bob''" "strip ''1'' = ''1''" "strip ''bob@x.org'' = ''bob@x.org''"
    "strip ''Old'' = ''Old''" "strip ''9'' = ''9''" "strip ''old@x.org'' = ''old@x.org''"
    by (simp_all add: strip_def isspace_def)
  have d: "json_dump [new_contact '' Bob'' ''1'' ''bob@x.org'']
      = JArr [JObj [(''Name'', JStr '' Bob''), (''Phone'', JStr ''1''),
                    (''Email'', JStr ''bob@x.org'')]]"
    by (simp add: json_dump_def new_contact_def)
  have c: "clean_all [JObj [(''Name'', JStr '' Bob''), (''Phone'', JStr ''1''),
                            (''Email'', JStr ''bob@x.org'')]]
      = Inr [new_contact ''Bob'' ''1'' ''bob@x.org'']"
    by (simp add: clean_def get_def py_str_def s)
  have p: "fst (read_contacts (snd (import_json (snd (export_json padded_world)))))
       = Inr [new_contact ''Bob'' ''1'' ''bob@x.org'']"
    using export_import_read [OF padded_world_contacts _ d c] by simp
  have n: "new_contact ''Bob'' ''1'' ''bob@x.org'' \<noteq> new_contact '' Bob'' ''1'' ''bob@x.org''"
    by (simp add: new_contact_def)
  have r: "read_contacts stale_world = (Inr [], stale_world)"
    by (rule read_contacts_header) (simp add: stale_world_def)
  then have e: "export_json stale_world = (None, print ''No contacts to export.'' stale_world)"
    by (simp add: export_json_def)
  have j: "json_file (print ''No contacts to export.'' stale_world)
      = Some (Document (JArr [JObj [(''Name'', JStr ''Old''), (''Phone'', JStr ''9''),
                                    (''Email'', JStr ''old@x.org'')]]))"
    by (simp add: print_def stale_world_def)
  have c2: "clean_all [JObj [(''Name'', JStr ''Old''), (''Phone'', JStr ''9''),
                             (''Email'', JStr ''old@x.org'')]]
      = Inr [new_contact ''Old'' ''9'' ''old@x.org'']"
    by (simp add: clean_def get_def py_str_def s)
  have q: "fst (read_contacts (snd (import_json (snd (export_json stale_world)))))
       = Inr [new_contact ''Old'' ''9'' ''old@x.org'']"
    using import_json_read [OF j c2] by (simp add: e)
  show ?thesis
    using p q n r by (simp add: padded_world_contacts)
qed

text \<open>
  C1, amended. When the store reads as at least one contact and no field of a contact
  starts or ends with whitespace, \<open>export_json\<close> followed at once by \<open>import_json\<close>
  returns normally and the store reads as the same contacts in the same order.
\<close>

theorem export_import_roundtrip:
  assumes "fst (read_contacts w) = Inr cs" and "cs \<noteq> []"
    and "list_all is_contact cs" and "list_all trimmed cs"
  shows "fst (export_json w) = None
    \<and> fst (import_json (snd (export_json w))) = None
    \<and> fst (read_contacts (snd (import_json (snd (export_json w))))) = Inr cs"
proof -
  from clean_all_dump [OF assms(3,4)] obtain elems where
    d: "json_dump cs = JArr elems" and cl: "clean_all elems = Inr cs"
    by blast
  from read_contacts_readable [OF assms(1)] have rd: "list_all readable_contact cs" .
  show ?thesis
    by (rule export_import_read [OF assms(1,2) d cl assms(3) rd])
qed

theorem export_import_roundtrip_witness:
  "fst (read_contacts sample_world)
     = Inr [new_contact ''Bob'' ''1'' ''bob@x.org'', new_contact ''Eve'' ''2'' ''eve@x.org'',
            new_contact ''bob'' ''3'' ''b2@x.org'']
   \<and> [new_contact ''Bob'' ''1'' ''bob@x.org'', new_contact ''Eve'' ''2'' ''eve@x.org'',
       new_contact ''bob'' ''3'' ''b2@x.org''] \<noteq> []
   \<and> list_all is_contact
        [new_contact ''Bob'' ''1'' ''bob@x.org'', new_contact ''Eve'' ''2'' ''eve@x.org'',
         new_contact ''bob'' ''3'' ''b2@x.org'']
   \<and> list_all trimmed
        [new_contact ''Bob'' ''1'' ''bob@x.org'', new_contact ''Eve'' ''2'' ''eve@x.org'',
         new_contact ''bob'' ''3'' ''b2@x.org'']
   \<and> fst (export_json sample_world) = None
   \<and> fst (import_json (snd (export_json sample_world))) = None
   \<and> fst (read_contacts (snd (import_json (snd (export_json sample_world)))))
       = Inr [new_contact ''Bob'' ''1'' ''bob@x.org'', new_contact ''Eve'' ''2'' ''eve@x.org'',
              new_contact ''bob'' ''3'' ''b2@x.org'']"
proof -
  let ?cs = "[new_contact ''Bob'' ''1'' ''bob@x.org'', new_contact ''Eve'' ''2'' ''eve@x.org'',
              new_contact ''bob'' ''3'' ''b2@x.org'']"
  have h1: "?cs \<noteq> []"
    by simp
  have h2: "list_all is_contact ?cs"
    by simp
  have h3: "list_all trimmed ?cs"
    by (simp add: trimmed_new_contact strip_def isspace_def)
  from h1 h2 h3 sample_world_contacts
    export_import_roundtrip [OF sample_world_contacts h1 h2 h3]
  show ?thesis
    by blast
qed

end
